theory Spec2Isabelle
  imports Main "HOL-Library.Word"
begin

section \<open>Data model of RegExpBuilder.ts\<close>

text \<open>
  A JavaScript string is modelled as a \<^typ>\<open>string\<close> in which every \<^typ>\<open>char\<close> stands for
  one element of the string's iteration (one code point), so that
  \<open>isSingleUnicodeCodepoint\<close> is a test on the length of the list.

  A JavaScript number is modelled by \<open>JSNumber\<close>: an integral value or \<open>Infinity\<close>.
  Fractions and \<open>NaN\<close> are not values of the model; \<open>NaN\<close> only appears as the
  result \<open>None\<close> of \<open>parseInt16\<close>.
\<close>

datatype JSNumber = Num int | PosInfinity

datatype NameOrIndex = Name string | Index JSNumber

text \<open>
  The tagged union \<open>Pattern = SinglePattern | Pattern[]\<close>. \<open>Str\<close> is a string pattern,
  \<open>Seq\<close> an array, and every other constructor is the interface whose \<open>type\<close> field has
  that name, with its fields in the order given in the comments.
\<close>

datatype Pattern =
    Str string
  | Seq "Pattern list"
  | SpecialToken string string             \<comment> \<open>name, rawRegExp\<close>
  | Possibly Pattern                       \<comment> \<open>content\<close>
  | ZeroOrMore Pattern bool                \<comment> \<open>content, greedy\<close>
  | OneOrMore Pattern bool                 \<comment> \<open>content, greedy\<close>
  | Repeated Pattern JSNumber JSNumber bool  \<comment> \<open>content, minCount, maxCount, greedy\<close>
  | PrecededBy Pattern
  | NotPrecededBy Pattern
  | FollowedBy Pattern
  | NotFollowedBy Pattern
  | AnyOf "Pattern list"                   \<comment> \<open>members\<close>
  | NotAnyOf "Pattern list"                \<comment> \<open>members\<close>
  | Capture "string option" Pattern        \<comment> \<open>name (\<open>None\<close> is \<open>undefined\<close>), content\<close>
  | SameAs NameOrIndex                     \<comment> \<open>captureGroupNameOrIndex\<close>

text \<open>Every \<open>throw new Error(...)\<close> of the source is one constructor.\<close>

datatype error =
    ZeroLengthString                \<comment> \<open>\<open>isSingleUnicodeCodepoint\<close>\<close>
  | NotSingleCodepointOrClassToken  \<comment> \<open>\<open>encodePattern_notAnyOf\<close>, first check\<close>
  | StringNotSingleCodepoint        \<comment> \<open>\<open>encodePattern_notAnyOf\<close>, second check\<close>
  | RangeShape                      \<comment> \<open>\<open>repeated\<close>, \<open>repeatedNonGreedy\<close>\<close>
  | SameAsEmptyName                 \<comment> \<open>\<open>sameAs\<close>\<close>
  | SameAsIndexOutOfRange           \<comment> \<open>\<open>sameAs\<close>\<close>
  | SameAsIndexFractional           \<comment> \<open>\<open>sameAs\<close>\<close>
  | CodepointInvalidHex             \<comment> \<open>\<open>codepoint\<close>\<close>
  | CodepointNaN                    \<comment> \<open>\<open>assertValidNumericCodepoint\<close>\<close>
  | CodepointOutOfRange             \<comment> \<open>\<open>assertValidNumericCodepoint\<close>\<close>
  | UnresolvedIndex                 \<comment> \<open>\<open>isPatternOptional\<close>, numeric backreference\<close>
  | UnresolvedName                  \<comment> \<open>\<open>isPatternOptional\<close>, named backreference\<close>

abbreviation backslash :: char where
  "backslash \<equiv> CHR 0x5C"

section \<open>Language primitives used by the source\<close>

text \<open>The first thrown error of a list of results, or all their values (\<open>Array.map\<close>).\<close>

fun collect :: "(error + 'a) list \<Rightarrow> error + 'a list" where
  "collect [] = Inr []"
| "collect (Inl e # rs) = Inl e"
| "collect (Inr v # rs) = (case collect rs of Inl e \<Rightarrow> Inl e | Inr vs \<Rightarrow> Inr (v # vs))"

text \<open>A \<open>for ... of\<close> loop over a list whose body updates a state or throws.\<close>

fun for_of :: "('s \<Rightarrow> 'a \<Rightarrow> error + 's) \<Rightarrow> 's \<Rightarrow> 'a list \<Rightarrow> error + 's" where
  "for_of body s [] = Inr s"
| "for_of body s (x # xs) =
     (case body s x of Inl e \<Rightarrow> Inl e | Inr s' \<Rightarrow> for_of body s' xs)"

text \<open>\<open>Array.prototype.join\<close>.\<close>

fun join :: "string \<Rightarrow> string list \<Rightarrow> string" where
  "join sep [] = []"
| "join sep [s] = s"
| "join sep (s # t # ts) = s @ sep @ join sep (t # ts)"

text \<open>
  Template-literal rendering of a number. For an integral value below \<open>10^21\<close> in
  magnitude JavaScript prints the plain decimal digits.
\<close>

definition digit_char :: "nat \<Rightarrow> char" where
  "digit_char d = ''0123456789abcdef'' ! d"

fun decimal_of_nat :: "nat \<Rightarrow> string" where
  "decimal_of_nat n =
     (if n < 10 then [digit_char n]
      else decimal_of_nat (n div 10) @ [digit_char (n mod 10)])"

declare decimal_of_nat.simps [simp del]

definition number_toString :: "JSNumber \<Rightarrow> string" where
  "number_toString x =
     (case x of
        PosInfinity \<Rightarrow> ''Infinity''
      | Num n \<Rightarrow> (if n < 0 then ''-'' @ decimal_of_nat (nat (- n)) else decimal_of_nat (nat n)))"

text \<open>\<open>x | 0\<close>: the \<open>ToInt32\<close> conversion; \<open>Infinity\<close> becomes \<open>0\<close>.\<close>

definition ToInt32 :: "JSNumber \<Rightarrow> JSNumber" where
  "ToInt32 x = (case x of PosInfinity \<Rightarrow> Num 0 | Num n \<Rightarrow> Num (sint (word_of_int n :: 32 word)))"

section \<open>Utility functions\<close>

definition escapeStringForRegExp :: "string \<Rightarrow> string" where
  "escapeStringForRegExp str =
     concat (map (\<lambda>c. if c \<in> set (''.*+?^${}()|[]'' @ [backslash]) then [backslash, c] else [c]) str)"

definition isSingleUnicodeCodepoint :: "string \<Rightarrow> error + bool" where
  "isSingleUnicodeCodepoint str =
     (case str of [] \<Rightarrow> Inl ZeroLengthString | c # _ \<Rightarrow> Inr (length [c] = length str))"

fun isString :: "Pattern \<Rightarrow> bool" where
  "isString (Str s) = True"
| "isString p = False"

fun isClassToken :: "Pattern \<Rightarrow> bool" where
  "isClassToken (SpecialToken n r) = True"
| "isClassToken p = False"

fun isSingleCharPattern :: "Pattern \<Rightarrow> error + bool" where
  "isSingleCharPattern (Str s) =
     (case isSingleUnicodeCodepoint s of
        Inl e \<Rightarrow> Inl e
      | Inr b \<Rightarrow> Inr (b \<or> isClassToken (Str s)))"
| "isSingleCharPattern p = Inr (isClassToken p)"

definition isStringOrClassToken :: "Pattern \<Rightarrow> bool" where
  "isStringOrClassToken pattern = (isString pattern \<or> isClassToken pattern)"

section \<open>Encoder functions\<close>

text \<open>
  The per-node encoders take the already computed encoding of the content (or, for the
  member lists, each member paired with its encoder), so that \<open>encodePattern\<close> below is
  a structural recursion.
\<close>

definition encodePattern_possibly :: "Pattern \<Rightarrow> error + string \<Rightarrow> error + string" where
  "encodePattern_possibly content contentResult =
     (case contentResult of
        Inl e \<Rightarrow> Inl e
      | Inr contentString \<Rightarrow>
          if contentString = [] then Inr []
          else if isStringOrClassToken content then Inr (contentString @ ''?'')
          else Inr (''(?:'' @ contentString @ '')?''))"

definition encodePattern_zeroOrMore :: "Pattern \<Rightarrow> bool \<Rightarrow> error + string \<Rightarrow> error + string" where
  "encodePattern_zeroOrMore content greedy contentResult =
     (case contentResult of
        Inl e \<Rightarrow> Inl e
      | Inr contentString \<Rightarrow>
          if contentString = [] then Inr []
          else let greedySuffix = (if greedy then [] else ''?'') in
            if isStringOrClassToken content then Inr (contentString @ ''*'' @ greedySuffix)
            else Inr (''(?:'' @ contentString @ '')*'' @ greedySuffix))"

definition encodePattern_oneOrMore :: "Pattern \<Rightarrow> bool \<Rightarrow> error + string \<Rightarrow> error + string" where
  "encodePattern_oneOrMore content greedy contentResult =
     (case contentResult of
        Inl e \<Rightarrow> Inl e
      | Inr contentString \<Rightarrow>
          if contentString = [] then Inr []
          else let greedySuffix = (if greedy then [] else ''?'') in
            if isStringOrClassToken content then Inr (contentString @ ''+'' @ greedySuffix)
            else Inr (''(?:'' @ contentString @ '')+'' @ greedySuffix))"

definition encodePattern_repeated ::
  "JSNumber \<Rightarrow> JSNumber \<Rightarrow> bool \<Rightarrow> error + string \<Rightarrow> error + string" where
  "encodePattern_repeated minCount maxCount greedy contentResult =
     (case contentResult of
        Inl e \<Rightarrow> Inl e
      | Inr contentString \<Rightarrow>
          if contentString = [] then Inr []
          else let countString =
                 (if minCount = maxCount then ''{'' @ number_toString minCount @ ''}''
                  else if maxCount = PosInfinity then ''{'' @ number_toString minCount @ '',}''
                  else ''{'' @ number_toString minCount @ '','' @ number_toString maxCount @ ''}'');
                   greedySuffix = (if greedy then [] else ''?'')
               in Inr (''(?:'' @ contentString @ '')'' @ countString @ greedySuffix))"

definition encodePattern_lookaround :: "string \<Rightarrow> error + string \<Rightarrow> error + string" where
  "encodePattern_lookaround opening contentResult =
     (case contentResult of
        Inl e \<Rightarrow> Inl e
      | Inr contentString \<Rightarrow>
          if contentString = [] then Inr [] else Inr (opening @ contentString @ '')''))"

definition encodePattern_precededBy :: "error + string \<Rightarrow> error + string" where
  "encodePattern_precededBy = encodePattern_lookaround ''(?<=''"

definition encodePattern_notPrecededBy :: "error + string \<Rightarrow> error + string" where
  "encodePattern_notPrecededBy = encodePattern_lookaround ''(?<!''"

definition encodePattern_followedBy :: "error + string \<Rightarrow> error + string" where
  "encodePattern_followedBy = encodePattern_lookaround ''(?=''"

definition encodePattern_notFollowedBy :: "error + string \<Rightarrow> error + string" where
  "encodePattern_notFollowedBy = encodePattern_lookaround ''(?!''"

text \<open>\<open>if (pattern.name)\<close>: \<open>undefined\<close> and the empty string are falsy.\<close>

definition encodePattern_capture :: "string option \<Rightarrow> error + string \<Rightarrow> error + string" where
  "encodePattern_capture name contentResult =
     (case contentResult of
        Inl e \<Rightarrow> Inl e
      | Inr contentString \<Rightarrow>
          (case name of
             Some n \<Rightarrow> if n \<noteq> [] then Inr (''(?<'' @ n @ ''>'' @ contentString @ '')'')
                       else Inr (''('' @ contentString @ '')'')
           | None \<Rightarrow> Inr (''('' @ contentString @ '')'')))"

definition encodePattern_sameAs :: "NameOrIndex \<Rightarrow> error + string" where
  "encodePattern_sameAs captureGroupNameOrIndex =
     (case captureGroupNameOrIndex of
        Name n \<Rightarrow> Inr ([backslash] @ ''k<'' @ n @ ''>'')
      | Index i \<Rightarrow> Inr (''(?:'' @ [backslash] @ number_toString i @ '')''))"

text \<open>A member of \<open>anyOf\<close>/\<open>notAnyOf\<close> with the function that encodes it.\<close>

type_synonym member = "Pattern \<times> (bool \<Rightarrow> error + string)"

text \<open>The body of the first loop of \<open>encodePattern_anyOf\<close>; \<open>patternGroups\<close> is never empty.\<close>

definition group_member :: "member list list \<Rightarrow> member \<Rightarrow> error + member list list" where
  "group_member patternGroups m =
     (let lastGroup = last patternGroups in
      if length lastGroup = 0 then Inr (butlast patternGroups @ [lastGroup @ [m]])
      else
        (case isSingleCharPattern (fst m) of
           Inl e \<Rightarrow> Inl e
         | Inr a \<Rightarrow>
             (case isSingleCharPattern (fst (hd lastGroup)) of
                Inl e \<Rightarrow> Inl e
              | Inr b \<Rightarrow>
                  if a = b then Inr (butlast patternGroups @ [lastGroup @ [m]])
                  else Inr (patternGroups @ [[m]]))))"

text \<open>The body of the second loop: the strings one group pushes.\<close>

definition encode_group :: "string list \<Rightarrow> member list \<Rightarrow> error + string list" where
  "encode_group disjunctionMemberStrings patternGroup =
     (if length patternGroup = 0 then Inr disjunctionMemberStrings
      else
        (case isSingleCharPattern (fst (hd patternGroup)) of
           Inl e \<Rightarrow> Inl e
         | Inr True \<Rightarrow>
             (case collect (map (\<lambda>m. snd m False) patternGroup) of
                Inl e \<Rightarrow> Inl e
              | Inr encoded \<Rightarrow>
                  let encodedPatternsGroup =
                        map (\<lambda>v. if v = ''-'' then [backslash] @ ''-'' else v)
                          (filter (\<lambda>v. length v > 0) encoded)
                  in if length encodedPatternsGroup > 0
                     then Inr (disjunctionMemberStrings @ [''['' @ concat encodedPatternsGroup @ '']''])
                     else Inr disjunctionMemberStrings)
         | Inr False \<Rightarrow>
             (case collect (map (\<lambda>m. snd m True) patternGroup) of
                Inl e \<Rightarrow> Inl e
              | Inr encoded \<Rightarrow>
                  Inr (disjunctionMemberStrings @ filter (\<lambda>v. length v > 0) encoded))))"

definition encodePattern_anyOf :: "member list \<Rightarrow> error + string" where
  "encodePattern_anyOf members =
     (if length members = 0 then Inr []
      else
        (case for_of group_member [[]] members of
           Inl e \<Rightarrow> Inl e
         | Inr patternGroups \<Rightarrow>
             (case for_of encode_group [] patternGroups of
                Inl e \<Rightarrow> Inl e
              | Inr disjunctionMemberStrings \<Rightarrow>
                  if length disjunctionMemberStrings = 0 then Inr []
                  else Inr (''(?:'' @ join ''|'' disjunctionMemberStrings @ '')''))))"

definition notAnyOf_member :: "string list \<Rightarrow> member \<Rightarrow> error + string list" where
  "notAnyOf_member encodedElements m =
     (if \<not> isStringOrClassToken (fst m) then Inl NotSingleCodepointOrClassToken
      else
        (case (case fst m of
                 Str s \<Rightarrow> (case isSingleUnicodeCodepoint s of
                             Inl e \<Rightarrow> Inl e
                           | Inr b \<Rightarrow> if \<not> b then Inl StringNotSingleCodepoint else Inr ())
               | _ \<Rightarrow> Inr ()) of
           Inl e \<Rightarrow> Inl e
         | Inr _ \<Rightarrow>
             (case snd m False of
                Inl e \<Rightarrow> Inl e
              | Inr s \<Rightarrow> Inr (encodedElements @ [s]))))"

definition encodePattern_notAnyOf :: "member list \<Rightarrow> error + string" where
  "encodePattern_notAnyOf members =
     (if length members = 0 then Inr []
      else
        (case for_of notAnyOf_member [] members of
           Inl e \<Rightarrow> Inl e
         | Inr encodedElements \<Rightarrow> Inr (''[^'' @ concat encodedElements @ '']'')))"

fun encodePattern :: "Pattern \<Rightarrow> bool \<Rightarrow> error + string" where
  "encodePattern (Str s) wrapRangeTokens = Inr (escapeStringForRegExp s)"
| "encodePattern (Seq elements) wrapRangeTokens =
     (case collect (map (\<lambda>element. encodePattern element True) elements) of
        Inl e \<Rightarrow> Inl e
      | Inr strs \<Rightarrow> Inr (concat strs))"
| "encodePattern (SpecialToken name rawRegExp) wrapRangeTokens =
     (if wrapRangeTokens \<and> (name = ''charRange'' \<or> name = ''codepointRange'')
      then Inr (''['' @ rawRegExp @ '']'')
      else Inr rawRegExp)"
| "encodePattern (Possibly content) wrapRangeTokens =
     encodePattern_possibly content (encodePattern content True)"
| "encodePattern (ZeroOrMore content greedy) wrapRangeTokens =
     encodePattern_zeroOrMore content greedy (encodePattern content True)"
| "encodePattern (OneOrMore content greedy) wrapRangeTokens =
     encodePattern_oneOrMore content greedy (encodePattern content True)"
| "encodePattern (AnyOf members) wrapRangeTokens =
     encodePattern_anyOf (map (\<lambda>m. (m, \<lambda>w. encodePattern m w)) members)"
| "encodePattern (NotAnyOf members) wrapRangeTokens =
     encodePattern_notAnyOf (map (\<lambda>m. (m, \<lambda>w. encodePattern m w)) members)"
| "encodePattern (Capture name content) wrapRangeTokens =
     encodePattern_capture name (encodePattern content True)"
| "encodePattern (Repeated content minCount maxCount greedy) wrapRangeTokens =
     encodePattern_repeated minCount maxCount greedy (encodePattern content True)"
| "encodePattern (FollowedBy content) wrapRangeTokens =
     encodePattern_followedBy (encodePattern content True)"
| "encodePattern (NotFollowedBy content) wrapRangeTokens =
     encodePattern_notFollowedBy (encodePattern content True)"
| "encodePattern (PrecededBy content) wrapRangeTokens =
     encodePattern_precededBy (encodePattern content True)"
| "encodePattern (NotPrecededBy content) wrapRangeTokens =
     encodePattern_notPrecededBy (encodePattern content True)"
| "encodePattern (SameAs captureGroupNameOrIndex) wrapRangeTokens =
     encodePattern_sameAs captureGroupNameOrIndex"

section \<open>AST building functions\<close>

definition possibly :: "Pattern \<Rightarrow> Pattern" where
  "possibly pattern = Possibly pattern"

definition zeroOrMore :: "Pattern \<Rightarrow> Pattern" where
  "zeroOrMore pattern = ZeroOrMore pattern True"

definition zeroOrMoreNonGreedy :: "Pattern \<Rightarrow> Pattern" where
  "zeroOrMoreNonGreedy pattern = ZeroOrMore pattern False"

definition oneOrMore :: "Pattern \<Rightarrow> Pattern" where
  "oneOrMore pattern = OneOrMore pattern True"

definition oneOrMoreNonGreedy :: "Pattern \<Rightarrow> Pattern" where
  "oneOrMoreNonGreedy pattern = OneOrMore pattern False"

text \<open>
  The argument of \<open>repeated\<close> is a number or a range array. The array is a list, since the
  source tests its length at run time; \<open>range[1] ?? Infinity\<close> reads a missing second
  element as \<open>Infinity\<close>. The source's variable \<open>range\<close> is \<open>rng\<close> here.
\<close>

datatype CountOrRange = Count JSNumber | Range "JSNumber list"

definition range_counts :: "JSNumber list \<Rightarrow> error + JSNumber \<times> JSNumber" where
  "range_counts rng =
     (if length rng = 0 \<or> length rng > 2 then Inl RangeShape
      else Inr (rng ! 0, (if 1 < length rng then rng ! 1 else PosInfinity)))"

definition repeated :: "CountOrRange \<Rightarrow> Pattern \<Rightarrow> error + Pattern" where
  "repeated countOrRange pattern =
     (case (case countOrRange of
              Count count \<Rightarrow> Inr (count, count)
            | Range rng \<Rightarrow> range_counts rng) of
        Inl e \<Rightarrow> Inl e
      | Inr (minCount, maxCount) \<Rightarrow>
          Inr (Repeated pattern (ToInt32 minCount) (ToInt32 maxCount) True))"

definition repeatedNonGreedy :: "Pattern \<Rightarrow> JSNumber list \<Rightarrow> error + Pattern" where
  "repeatedNonGreedy pattern rng =
     (case range_counts rng of
        Inl e \<Rightarrow> Inl e
      | Inr (minCount, maxCount) \<Rightarrow>
          Inr (Repeated pattern (ToInt32 minCount) (ToInt32 maxCount) False))"

definition precededBy :: "Pattern \<Rightarrow> Pattern" where
  "precededBy pattern = PrecededBy pattern"

definition notPrecededBy :: "Pattern \<Rightarrow> Pattern" where
  "notPrecededBy pattern = NotPrecededBy pattern"

definition followedBy :: "Pattern \<Rightarrow> Pattern" where
  "followedBy pattern = FollowedBy pattern"

definition notFollowedBy :: "Pattern \<Rightarrow> Pattern" where
  "notFollowedBy pattern = NotFollowedBy pattern"

definition anyOf :: "Pattern list \<Rightarrow> Pattern" where
  "anyOf members = AnyOf members"

definition notAnyOf :: "Pattern list \<Rightarrow> Pattern" where
  "notAnyOf members = NotAnyOf members"

definition capture :: "Pattern \<Rightarrow> Pattern" where
  "capture pattern = Capture None pattern"

definition captureAs :: "string \<Rightarrow> Pattern \<Rightarrow> Pattern" where
  "captureAs name pattern = Capture (Some name) pattern"

fun number_less :: "JSNumber \<Rightarrow> JSNumber \<Rightarrow> bool" where
  "number_less (Num a) (Num b) = (a < b)"
| "number_less (Num a) PosInfinity = True"
| "number_less PosInfinity y = False"

definition sameAs :: "NameOrIndex \<Rightarrow> error + Pattern" where
  "sameAs captureGroupNameOrIndex =
     (case captureGroupNameOrIndex of
        Name n \<Rightarrow>
          if length n = 0 then Inl SameAsEmptyName else Inr (SameAs captureGroupNameOrIndex)
      | Index i \<Rightarrow>
          if number_less i (Num 1) \<or> number_less (Num 99) i then Inl SameAsIndexOutOfRange
          else if i \<noteq> ToInt32 i then Inl SameAsIndexFractional
          else Inr (SameAs captureGroupNameOrIndex))"

subsection \<open>codepoint\<close>

text \<open>\<open>String.prototype.toLowerCase\<close> on the characters of the model (Latin-1).\<close>

definition lower_char :: "char \<Rightarrow> char" where
  "lower_char c =
     (let n = (of_char c :: nat) in
      if (65 \<le> n \<and> n \<le> 90) \<or> (192 \<le> n \<and> n \<le> 222 \<and> n \<noteq> 215) then char_of (n + 32) else c)"

definition toLowerCase :: "string \<Rightarrow> string" where
  "toLowerCase s = map lower_char s"

definition isHexDigit :: "char \<Rightarrow> bool" where
  "isHexDigit c = (c \<in> set ''0123456789abcdefABCDEF'')"

definition hexDigitValue :: "char \<Rightarrow> nat" where
  "hexDigitValue c =
     (let n = (of_char c :: nat) in
      if 48 \<le> n \<and> n \<le> 57 then n - 48
      else if 97 \<le> n \<and> n \<le> 102 then n - 87
      else n - 55)"

definition hex_value :: "string \<Rightarrow> nat" where
  "hex_value Z = foldl (\<lambda>acc c. 16 * acc + hexDigitValue c) 0 Z"

text \<open>
  \<open>/^[0-9a-fA-F]{1, 6}$/.test(s)\<close>. The pattern has no \<open>u\<close> flag and \<open>{1, 6}\<close> (with the
  space) is not a quantifier, so the braces and what is between them are literal
  characters: the pattern matches one hexadecimal digit followed by the six characters
  \<open>{1, 6}\<close>, and nothing else.
\<close>

definition hex_regexp_test :: "string \<Rightarrow> bool" where
  "hex_regexp_test s =
     (case s of [] \<Rightarrow> False | c # rest \<Rightarrow> isHexDigit c \<and> rest = ''{1, 6}'')"

text \<open>
  \<open>Number.parseInt(s, 16)\<close> as ECMAScript defines it: leading white space is skipped,
  then an optional sign and an optional \<open>0x\<close>/\<open>0X\<close>, then the longest run of
  hexadecimal digits is read; with no digit the result is \<open>NaN\<close> (\<open>None\<close>).
\<close>

definition isStrWhiteSpaceChar :: "char \<Rightarrow> bool" where
  "isStrWhiteSpaceChar c = ((of_char c :: nat) \<in> {9, 10, 11, 12, 13, 32, 160})"

definition parseInt16 :: "string \<Rightarrow> JSNumber option" where
  "parseInt16 inputString =
     (let S = dropWhile isStrWhiteSpaceChar inputString;
          sign = (if take 1 S = ''-'' then - 1 else (1::int));
          S1 = (if take 1 S = ''+'' \<or> take 1 S = ''-'' then drop 1 S else S);
          S2 = (if take 2 S1 = ''0x'' \<or> take 2 S1 = ''0X'' then drop 2 S1 else S1);
          Z = takeWhile isHexDigit S2
      in if Z = [] then None else Some (Num (sign * int (hex_value Z))))"

text \<open>\<open>Number.prototype.toString(16)\<close> of a non-negative integer.\<close>

fun hex_of_nat :: "nat \<Rightarrow> string" where
  "hex_of_nat n =
     (if n < 16 then [digit_char n]
      else hex_of_nat (n div 16) @ [digit_char (n mod 16)])"

declare hex_of_nat.simps [simp del]

definition number_toString16 :: "JSNumber \<Rightarrow> string" where
  "number_toString16 x =
     (case x of
        PosInfinity \<Rightarrow> ''Infinity''
      | Num n \<Rightarrow> (if n < 0 then ''-'' @ hex_of_nat (nat (- n)) else hex_of_nat (nat n)))"

definition assertValidNumericCodepoint :: "JSNumber option \<Rightarrow> error + unit" where
  "assertValidNumericCodepoint numericCodepoint =
     (case numericCodepoint of
        None \<Rightarrow> Inl CodepointNaN
      | Some n \<Rightarrow>
          if number_less n (Num 0) \<or> number_less (Num 1114111) n then Inl CodepointOutOfRange
          else Inr ())"

datatype CodepointArg = CodepointHex string | CodepointIndex JSNumber

definition codepoint :: "CodepointArg \<Rightarrow> error + Pattern" where
  "codepoint unicodeCodepoint =
     (case (case unicodeCodepoint of
              CodepointIndex n \<Rightarrow>
                (case assertValidNumericCodepoint (Some n) of
                   Inl e \<Rightarrow> Inl e
                 | Inr _ \<Rightarrow> Inr (number_toString16 n))
            | CodepointHex h \<Rightarrow>
                (let lowered = toLowerCase h in
                 if hex_regexp_test lowered then Inl CodepointInvalidHex
                 else
                   (case assertValidNumericCodepoint (parseInt16 lowered) of
                      Inl e \<Rightarrow> Inl e
                    | Inr _ \<Rightarrow> Inr lowered))) of
        Inl e \<Rightarrow> Inl e
      | Inr digits \<Rightarrow>
          Inr (SpecialToken ''codepoint'' ([backslash] @ ''u{'' @ digits @ ''}'')))"

section \<open>Match patterns\<close>

record MatchesConditions =
  except :: "Pattern option"
  ifFollowedBy :: "Pattern option"
  ifNotFollowedBy :: "Pattern option"
  ifPrecededBy :: "Pattern option"
  ifNotPrecededBy :: "Pattern option"
  ifExtendsTo :: "Pattern option"
  ifExtendsBackTo :: "Pattern option"
  ifNotExtendsBackTo :: "Pattern option"

datatype ConditionsArg = Conditions MatchesConditions | ConditionsArray "MatchesConditions list"

text \<open>
  \<open>if (conditions.slot) { bucket.push(wrap(conditions.slot)) }\<close>. An absent slot and the
  empty string are falsy; every other pattern is an object, an array or a non-empty
  string, hence truthy.
\<close>

definition push_if :: "Pattern option \<Rightarrow> (Pattern \<Rightarrow> Pattern) \<Rightarrow> Pattern list \<Rightarrow> Pattern list" where
  "push_if slot wrap bucket =
     (case slot of
        None \<Rightarrow> bucket
      | Some p \<Rightarrow> if p = Str [] then bucket else bucket @ [wrap p])"

definition matches_step ::
  "Pattern list \<times> Pattern list \<Rightarrow> MatchesConditions \<Rightarrow> Pattern list \<times> Pattern list" where
  "matches_step buckets conditions =
     (let beforePattern = fst buckets;
          afterPattern = snd buckets;
          beforePattern = push_if (except conditions) notFollowedBy beforePattern;
          afterPattern = push_if (ifFollowedBy conditions) followedBy afterPattern;
          afterPattern = push_if (ifNotFollowedBy conditions) notFollowedBy afterPattern;
          beforePattern = push_if (ifPrecededBy conditions) precededBy beforePattern;
          beforePattern = push_if (ifNotPrecededBy conditions) notPrecededBy beforePattern;
          beforePattern = push_if (ifExtendsTo conditions) followedBy beforePattern;
          afterPattern = push_if (ifExtendsBackTo conditions) precededBy afterPattern;
          afterPattern = push_if (ifNotExtendsBackTo conditions) notPrecededBy afterPattern
      in (beforePattern, afterPattern))"

definition matches :: "Pattern \<Rightarrow> ConditionsArg \<Rightarrow> Pattern" where
  "matches pattern conditionsOrConditionsArray =
     (let conditionsArray =
            (case conditionsOrConditionsArray of
               ConditionsArray cs \<Rightarrow> cs
             | Conditions c \<Rightarrow> [c]);
          buckets = foldl matches_step ([], []) conditionsArray
      in Seq (fst buckets @ [pattern] @ snd buckets))"

section \<open>Detect if a pattern is optional\<close>

text \<open>
  The two lookup tables of one \<open>isPatternOptional\<close> call, threaded through the
  traversal. \<open>array_get\<close> is the array read \<open>captureGroupLookup[n]\<close>: \<open>None\<close> is
  \<open>undefined\<close>.
\<close>

record lookups =
  captureGroupLookup :: "bool list"
  namedCaptureGroupLookup :: "string \<rightharpoonup> bool"

definition array_get :: "'a list \<Rightarrow> JSNumber \<Rightarrow> 'a option" where
  "array_get xs i =
     (case i of
        PosInfinity \<Rightarrow> None
      | Num n \<Rightarrow> if 0 \<le> n \<and> n < int (length xs) then Some (xs ! nat n) else None)"

fun isOptional :: "Pattern \<Rightarrow> lookups \<Rightarrow> error + bool \<times> lookups"
  and isOptional_each :: "Pattern list \<Rightarrow> lookups \<Rightarrow> error + bool \<times> lookups" where
  "isOptional (Str s) st = Inr (False, st)"
| "isOptional (Seq elements) st = isOptional_each elements st"
| "isOptional (SpecialToken name rawRegExp) st = Inr (False, st)"
| "isOptional (NotAnyOf members) st = Inr (False, st)"
| "isOptional (Possibly content) st = Inr (True, st)"
| "isOptional (ZeroOrMore content greedy) st = Inr (True, st)"
| "isOptional (OneOrMore content greedy) st = isOptional content st"
| "isOptional (Repeated content minCount maxCount greedy) st = isOptional content st"
| "isOptional (PrecededBy content) st = isOptional content st"
| "isOptional (NotPrecededBy content) st = isOptional content st"
| "isOptional (FollowedBy content) st = isOptional content st"
| "isOptional (NotFollowedBy content) st = isOptional content st"
| "isOptional (Capture name content) st =
     (case isOptional content st of
        Inl e \<Rightarrow> Inl e
      | Inr (isGroupOptional, st1) \<Rightarrow>
          let st2 = st1\<lparr>captureGroupLookup := captureGroupLookup st1 @ [isGroupOptional]\<rparr>;
              st3 = (case name of
                       None \<Rightarrow> st2
                     | Some n \<Rightarrow>
                         if n \<noteq> [] then
                           st2\<lparr>namedCaptureGroupLookup :=
                                 (namedCaptureGroupLookup st2)(n \<mapsto> isGroupOptional)\<rparr>
                         else st2)
          in Inr (isGroupOptional, st3))"
| "isOptional (AnyOf members) st = isOptional_each members st"
| "isOptional (SameAs nameOrIndex) st =
     (case nameOrIndex of
        Index i \<Rightarrow>
          (case array_get (captureGroupLookup st) i of
             None \<Rightarrow> Inl UnresolvedIndex
           | Some lookupResult \<Rightarrow> Inr (lookupResult, st))
      | Name n \<Rightarrow>
          (case namedCaptureGroupLookup st n of
             None \<Rightarrow> Inl UnresolvedName
           | Some lookupResult \<Rightarrow> Inr (lookupResult, st)))"
| "isOptional_each [] st = Inr (True, st)"
| "isOptional_each (element # rest) st =
     (case isOptional element st of
        Inl e \<Rightarrow> Inl e
      | Inr (optional, st1) \<Rightarrow>
          if \<not> optional then Inr (False, st1) else isOptional_each rest st1)"

definition isPatternOptional :: "Pattern \<Rightarrow> error + bool" where
  "isPatternOptional pattern =
     (case isOptional pattern \<lparr>captureGroupLookup = [], namedCaptureGroupLookup = Map.empty\<rparr> of
        Inl e \<Rightarrow> Inl e
      | Inr (optional, st) \<Rightarrow> Inr optional)"

section \<open>The claims' own notions\<close>

text \<open>
  These definitions follow the wording of the specification, not the source; the
  theorems below compare them with the functions above.

  A slot of a condition map is selected when the map supplies it, whatever pattern it
  holds. \<open>beforeAssertions\<close> and \<open>afterAssertions\<close> list the assertions of one
  condition map in the fixed orders the specification gives, and \<open>slots\<close> lists what the
  eight slots hold.
\<close>

definition selected :: "Pattern option \<Rightarrow> (Pattern \<Rightarrow> Pattern) \<Rightarrow> Pattern list" where
  "selected slot assertion = (case slot of None \<Rightarrow> [] | Some p \<Rightarrow> [assertion p])"

definition beforeAssertions :: "MatchesConditions \<Rightarrow> Pattern list" where
  "beforeAssertions c =
     selected (except c) NotFollowedBy @ selected (ifPrecededBy c) PrecededBy @
     selected (ifNotPrecededBy c) NotPrecededBy @ selected (ifExtendsTo c) FollowedBy"

definition afterAssertions :: "MatchesConditions \<Rightarrow> Pattern list" where
  "afterAssertions c =
     selected (ifFollowedBy c) FollowedBy @ selected (ifNotFollowedBy c) NotFollowedBy @
     selected (ifExtendsBackTo c) PrecededBy @ selected (ifNotExtendsBackTo c) NotPrecededBy"

definition slots :: "MatchesConditions \<Rightarrow> Pattern option list" where
  "slots c =
     [except c, ifFollowedBy c, ifNotFollowedBy c, ifPrecededBy c, ifNotPrecededBy c,
      ifExtendsTo c, ifExtendsBackTo c, ifNotExtendsBackTo c]"

text \<open>
  The amendment of C8: a slot that holds the empty string literal counts as a slot the
  map does not supply. \<open>without_empty\<close> is the condition map with such slots removed.
\<close>

definition unless_empty :: "Pattern option \<Rightarrow> Pattern option" where
  "unless_empty slot = (if slot = Some (Str []) then None else slot)"

definition without_empty :: "MatchesConditions \<Rightarrow> MatchesConditions" where
  "without_empty c =
     \<lparr>except = unless_empty (except c),
      ifFollowedBy = unless_empty (ifFollowedBy c),
      ifNotFollowedBy = unless_empty (ifNotFollowedBy c),
      ifPrecededBy = unless_empty (ifPrecededBy c),
      ifNotPrecededBy = unless_empty (ifNotPrecededBy c),
      ifExtendsTo = unless_empty (ifExtendsTo c),
      ifExtendsBackTo = unless_empty (ifExtendsBackTo c),
      ifNotExtendsBackTo = unless_empty (ifNotExtendsBackTo c)\<rparr>"

text \<open>
  An atomic pattern, in the glossary's words: a single literal code point or a single
  class-token fragment. Every other pattern is composite.
\<close>

fun atomic :: "Pattern \<Rightarrow> bool" where
  "atomic (Str s) = (length s = 1)"
| "atomic (SpecialToken name rawRegExp) = True"
| "atomic p = False"

text \<open>
  The grouping of \<open>anyOf\<close> in the specification's words, on the members given as pairs
  of their classification (atomic or composite) and their encoding. \<open>runs\<close> cuts a list
  into its maximal runs of consecutive elements of one classification. An atomic run
  gives one character class of its non-empty encodings, a bare \<open>-\<close> escaped, and gives
  nothing when no encoding is left; a composite run gives its non-empty encodings as
  separate branches. The outputs are joined with \<open>|\<close> and wrapped once in \<open>(?:...)\<close>; no
  output at all is the empty string.
\<close>

fun runs :: "('a \<Rightarrow> bool) \<Rightarrow> 'a list \<Rightarrow> 'a list list" where
  "runs P [] = []"
| "runs P (x # xs) =
     (case runs P xs of
        [] \<Rightarrow> [[x]]
      | r # rs \<Rightarrow> if P x = P (hd r) then (x # r) # rs else [x] # r # rs)"

definition run_output :: "(bool \<times> string) list \<Rightarrow> string list" where
  "run_output run =
     (let fragments = filter (\<lambda>v. v \<noteq> []) (map snd run) in
      case run of
        [] \<Rightarrow> []
      | (atomic_run, _) # _ \<Rightarrow>
          if atomic_run then
            (if fragments = [] then []
             else [''['' @ concat (map (\<lambda>v. if v = ''-'' then [backslash] @ ''-'' else v) fragments)
                   @ '']''])
          else fragments)"

definition disjunction :: "string list \<Rightarrow> string" where
  "disjunction outputs = (if outputs = [] then [] else ''(?:'' @ join ''|'' outputs @ '')'')"

definition anyOf_by_runs :: "(bool \<times> string) list \<Rightarrow> string" where
  "anyOf_by_runs tagged = disjunction (concat (map run_output (runs fst tagged)))"

section \<open>Optionality analyzer\<close>

text \<open>
  C10. \<open>isPatternOptional\<close> returns true for the empty array pattern and for an
  \<open>anyOf\<close> with no member: the loop over the elements (members) finds no element that
  is not optional.
\<close>

theorem isPatternOptional_vacuous:
  "isPatternOptional (Seq []) = Inr True \<and> isPatternOptional (anyOf []) = Inr True"
  by (simp add: isPatternOptional_def anyOf_def)

text \<open>
  C1, at the input \<open>[capture(possibly('a')), sameAs(1)]\<close>. \<open>sameAs(1)\<close> is accepted by
  the constructor, and one capture, whose content is optional, has been recorded when
  the backreference is visited. The table is read at index \<open>1\<close>, its second position,
  which is empty: the call fails with the resolution error instead of returning true.
  The flag of the first capture is what the reference \<open>0\<close> reads, a reference the
  constructor rejects.
\<close>

theorem sameAs_index_one_unresolved:
  "sameAs (Index (Num 1)) = Inr (SameAs (Index (Num 1))) \<and>
   isPatternOptional (Seq [capture (possibly (Str ''a'')), SameAs (Index (Num 1))])
     = Inl UnresolvedIndex \<and>
   isPatternOptional (Seq [capture (possibly (Str ''a'')), SameAs (Index (Num 0))])
     = Inr True \<and>
   sameAs (Index (Num 0)) = Inl SameAsIndexOutOfRange"
  by (simp add: sameAs_def ToInt32_def isPatternOptional_def capture_def possibly_def
      array_get_def)

section \<open>Quantifiers\<close>

text \<open>
  C2, at the inputs \<open>oneOrMore('bye')\<close>, \<open>possibly('ab')\<close> and
  \<open>zeroOrMoreNonGreedy('ab')\<close>. A string literal of several characters is composite
  content, yet the suffix is appended to its encoding with no non-capturing group.
\<close>

theorem quantified_string_literal_ungrouped:
  "encodePattern (oneOrMore (Str ''bye'')) True = Inr ''bye+'' \<and>
   encodePattern (possibly (Str ''ab'')) True = Inr ''ab?'' \<and>
   encodePattern (zeroOrMoreNonGreedy (Str ''ab'')) True = Inr ''ab*?''"
  by (simp add: oneOrMore_def possibly_def zeroOrMoreNonGreedy_def encodePattern_oneOrMore_def
      encodePattern_possibly_def encodePattern_zeroOrMore_def isStringOrClassToken_def
      escapeStringForRegExp_def)

text \<open>
  C3, at the input \<open>repeated([2], 'a')\<close>. The missing maximum is read as \<open>Infinity\<close> and
  then converted by \<open>maxCount |= 0\<close>, so the node holds the maximum count \<open>0\<close> and
  encodes with the suffix \<open>{2,0}\<close>, not \<open>{2,}\<close>.
\<close>

theorem repeated_open_range_encoding:
  "repeated (Range [Num 2]) (Str ''a'') = Inr (Repeated (Str ''a'') (Num 2) (Num 0) True) \<and>
   encodePattern (Repeated (Str ''a'') (Num 2) (Num 0) True) True = Inr ''(?:a){2,0}''"
  by (simp add: repeated_def range_counts_def ToInt32_def encodePattern_repeated_def
      escapeStringForRegExp_def number_toString_def decimal_of_nat.simps digit_char_def)

lemma ToInt32_id:
  assumes "- (2 ^ 31) \<le> n" "n < 2 ^ 31"
  shows "ToInt32 (Num n) = Num n"
  using assms by (simp add: ToInt32_def sint_sbintrunc' signed_take_bit_int_eq_self)

text \<open>
  C6, as amended. The constructors of a Repeated node fail exactly when the range
  argument has no element or more than two; a plain count never fails. The counts
  themselves are not compared: for any two counts \<open>a\<close> and \<open>b\<close> of 32-bit range, in
  either order and of either sign, the node with \<open>minCount = a\<close> and \<open>maxCount = b\<close>
  is built.
\<close>

theorem repeated_validation:
  "\<not> isl (repeated (Count n) c) \<and>
   isl (repeated (Range rng) c) = (length rng = 0 \<or> 2 < length rng) \<and>
   isl (repeatedNonGreedy c rng) = (length rng = 0 \<or> 2 < length rng) \<and>
   (- (2 ^ 31) \<le> a \<and> a < 2 ^ 31 \<and> - (2 ^ 31) \<le> b \<and> b < 2 ^ 31 \<longrightarrow>
      repeated (Range [Num a, Num b]) c = Inr (Repeated c (Num a) (Num b) True) \<and>
      repeatedNonGreedy c [Num a, Num b] = Inr (Repeated c (Num a) (Num b) False))"
  by (simp add: repeated_def repeatedNonGreedy_def range_counts_def ToInt32_id)

theorem repeated_validation_witness:
  "repeated (Range [Num 5, Num 2]) (Str ''a'') = Inr (Repeated (Str ''a'') (Num 5) (Num 2) True) \<and>
   isl (repeated (Range [Num 1, Num 2, Num 3]) (Str ''a''))"
  using repeated_validation [of "Num 0" "Str ''a''" "[Num 1, Num 2, Num 3]" 5 2] by simp

text \<open>
  The claim C6 as it was stated fails: \<open>repeated([5, 2], 'a')\<close> and
  \<open>repeatedNonGreedy('a', [5, 2])\<close> build a node whose minimum exceeds its maximum, and
  \<open>repeated(-1, 'a')\<close> a node with a negative minimum.
\<close>

theorem repeated_counts_unchecked:
  "repeated (Range [Num 5, Num 2]) (Str ''a'') = Inr (Repeated (Str ''a'') (Num 5) (Num 2) True) \<and>
   repeatedNonGreedy (Str ''a'') [Num 5, Num 2] = Inr (Repeated (Str ''a'') (Num 5) (Num 2) False) \<and>
   repeated (Count (Num (- 1))) (Str ''a'') = Inr (Repeated (Str ''a'') (Num (- 1)) (Num (- 1)) True)"
  by (simp add: repeated_def repeatedNonGreedy_def range_counts_def ToInt32_def)

section \<open>Codepoint tokens\<close>

text \<open>
  C4, at the inputs \<open>codepoint('0000041')\<close> (seven hexadecimal digits) and
  \<open>codepoint('4g')\<close> (not hexadecimal). Neither raises: the test of the digits rejects
  only a digit followed by the text \<open>{1, 6}\<close>, and \<open>parseInt\<close> reads the leading digits,
  so both tokens are built.
\<close>

theorem codepoint_hex_unvalidated:
  "codepoint (CodepointHex ''0000041'')
     = Inr (SpecialToken ''codepoint'' ([backslash] @ ''u{0000041}'')) \<and>
   codepoint (CodepointHex ''4g'')
     = Inr (SpecialToken ''codepoint'' ([backslash] @ ''u{4g}''))"
  by code_simp

section \<open>Captures and backreferences\<close>

lemma decimal_two_digits:
  assumes "n < 100"
  shows "decimal_of_nat n =
    (if n < 10 then [digit_char n] else [digit_char (n div 10), digit_char (n mod 10)])"
proof -
  have "n div 10 < 10" using assms by simp
  then show ?thesis
    by (simp add: decimal_of_nat.simps [of n] decimal_of_nat.simps [of "n div 10"])
qed

text \<open>
  C7, as amended. A name reference encodes to the named backreference \<open>\k<name>\<close>. An
  integer reference \<open>N\<close> from 1 to 99 encodes to the numbered backreference inside a
  non-capturing group, \<open>(?:\N)\<close>, with \<open>N\<close> in decimal digits.
\<close>

theorem sameAs_encoding:
  "encodePattern (SameAs (Name name)) w = Inr ([backslash] @ ''k<'' @ name @ ''>'') \<and>
   (1 \<le> N \<and> N \<le> 99 \<longrightarrow>
      encodePattern (SameAs (Index (Num (int N)))) w =
        Inr (''(?:'' @ [backslash] @
             (if N < 10 then [digit_char N]
              else [digit_char (N div 10), digit_char (N mod 10)]) @ '')''))"
  by (simp add: encodePattern_sameAs_def number_toString_def decimal_two_digits)

theorem sameAs_encoding_witness:
  "encodePattern (SameAs (Name ''stuff'')) True = Inr ([backslash] @ ''k<stuff>'') \<and>
   encodePattern (SameAs (Index (Num 12))) True = Inr (''(?:'' @ [backslash] @ ''12)'')"
  using sameAs_encoding [of "''stuff''" True 12] by (simp add: digit_char_def)

text \<open>
  The claim C7 as it was stated fails for the integer reference: \<open>sameAs(1)\<close> encodes to
  \<open>(?:\1)\<close>, which is not the bare \<open>\1\<close>.
\<close>

theorem sameAs_index_not_bare:
  "encodePattern (SameAs (Index (Num 1))) True = Inr (''(?:'' @ [backslash] @ ''1)'') \<and>
   encodePattern (SameAs (Index (Num 1))) True \<noteq> Inr ([backslash] @ ''1'')"
  by (simp add: encodePattern_sameAs_def number_toString_def decimal_of_nat.simps digit_char_def)

text \<open>
  C9, as amended. A capture always emits its capturing group around whatever its content
  encodes to, with no short-circuit for empty content: \<open>(content)\<close> for an unnamed
  capture and for one whose name is the empty string, \<open>(?<name>content)\<close> for a
  non-empty name. With content that encodes to the empty string these are \<open>()\<close> and
  \<open>(?<name>)\<close>, while every quantifier and every lookaround wrapper around the same
  content encodes to the empty string.
\<close>

theorem capture_encoding:
  assumes "encodePattern content True = Inr s"
  shows "encodePattern (capture content) w = Inr (''('' @ s @ '')'') \<and>
    encodePattern (captureAs name content) w =
      Inr (if name = [] then ''('' @ s @ '')'' else ''(?<'' @ name @ ''>'' @ s @ '')'') \<and>
    (s = [] \<longrightarrow>
      encodePattern (Possibly content) w = Inr [] \<and>
      encodePattern (ZeroOrMore content greedy) w = Inr [] \<and>
      encodePattern (OneOrMore content greedy) w = Inr [] \<and>
      encodePattern (Repeated content minCount maxCount greedy) w = Inr [] \<and>
      encodePattern (PrecededBy content) w = Inr [] \<and>
      encodePattern (NotPrecededBy content) w = Inr [] \<and>
      encodePattern (FollowedBy content) w = Inr [] \<and>
      encodePattern (NotFollowedBy content) w = Inr [])"
  using assms
  by (simp add: capture_def captureAs_def encodePattern_capture_def encodePattern_possibly_def
      encodePattern_zeroOrMore_def encodePattern_oneOrMore_def encodePattern_repeated_def
      encodePattern_precededBy_def encodePattern_notPrecededBy_def encodePattern_followedBy_def
      encodePattern_notFollowedBy_def encodePattern_lookaround_def)

theorem capture_encoding_witness:
  "encodePattern (Seq []) True = Inr [] \<and>
   encodePattern (capture (Seq [])) True = Inr ''()'' \<and>
   encodePattern (captureAs ''cc'' (Seq [])) True = Inr ''(?<cc>)'' \<and>
   encodePattern (Possibly (Seq [])) True = Inr [] \<and>
   encodePattern (NotFollowedBy (Seq [])) True = Inr [] \<and>
   encodePattern (Seq [Str ''hello'']) True = Inr ''hello'' \<and>
   encodePattern (capture (Seq [Str ''hello''])) True = Inr ''(hello)'' \<and>
   encodePattern (captureAs ''cc'' (Seq [Str ''hello''])) True = Inr ''(?<cc>hello)''"
proof -
  have e: "encodePattern (Seq []) True = Inr []" by simp
  have h: "encodePattern (Seq [Str ''hello'']) True = Inr ''hello''"
    by (simp add: escapeStringForRegExp_def)
  from capture_encoding [OF e, of True "''cc''"] capture_encoding [OF h, of True "''cc''"] e h
  show ?thesis by simp
qed

text \<open>
  The claim C9 as it was stated fails for a capture whose name is the empty string:
  \<open>captureAs('', [])\<close> encodes to \<open>()\<close>, not to the named form \<open>(?<>)\<close>.
\<close>

theorem capture_empty_name:
  "encodePattern (captureAs [] (Seq [])) True = Inr ''()'' \<and>
   encodePattern (captureAs [] (Seq [])) True \<noteq> Inr (''(?<'' @ [] @ ''>)'')"
  by (simp add: captureAs_def encodePattern_capture_def)

section \<open>Condition composer\<close>

lemma push_if_selected:
  "push_if slot wrap bucket = bucket @ selected (unless_empty slot) wrap"
  by (simp add: push_if_def selected_def unless_empty_def split: option.splits)

lemma assertion_constructors:
  "notFollowedBy = NotFollowedBy" "followedBy = FollowedBy"
  "precededBy = PrecededBy" "notPrecededBy = NotPrecededBy"
  by (simp_all add: fun_eq_iff notFollowedBy_def followedBy_def precededBy_def notPrecededBy_def)

lemma matches_step_buckets:
  "matches_step (before, after) c =
     (before @ beforeAssertions (without_empty c), after @ afterAssertions (without_empty c))"
  by (simp add: matches_step_def push_if_selected beforeAssertions_def afterAssertions_def
      without_empty_def assertion_constructors)

lemma matches_loop:
  "foldl matches_step (before, after) cs =
     (before @ concat (map (\<lambda>c. beforeAssertions (without_empty c)) cs),
      after @ concat (map (\<lambda>c. afterAssertions (without_empty c)) cs))"
  by (induction cs arbitrary: before after) (simp_all add: matches_step_buckets)

lemma unless_empty_id: "Some (Str []) \<noteq> slot \<Longrightarrow> unless_empty slot = slot"
  by (auto simp: unless_empty_def)

lemma assertions_without_empty:
  assumes "Some (Str []) \<notin> set (slots c)"
  shows "beforeAssertions (without_empty c) = beforeAssertions c"
    and "afterAssertions (without_empty c) = afterAssertions c"
  using assms
  by (simp_all add: slots_def without_empty_def beforeAssertions_def afterAssertions_def
      unless_empty_id)

text \<open>
  C8, as amended. \<open>matches\<close> returns the before-assertions, the primary pattern and the
  after-assertions, in this order. Each condition map contributes its selected
  before-slots in the order \<open>except\<close>, \<open>ifPrecededBy\<close>, \<open>ifNotPrecededBy\<close>,
  \<open>ifExtendsTo\<close> and its selected after-slots in the order \<open>ifFollowedBy\<close>,
  \<open>ifNotFollowedBy\<close>, \<open>ifExtendsBackTo\<close>, \<open>ifNotExtendsBackTo\<close>; the maps of an array
  contribute to the two buckets in array order. A slot that holds the empty string
  literal is treated as a slot that is not supplied; when no slot holds it, the result is
  the sequence of the claim without any change.
\<close>

theorem matches_sequence:
  "matches primary (ConditionsArray cs) =
     Seq (concat (map (\<lambda>c. beforeAssertions (without_empty c)) cs) @ [primary]
          @ concat (map (\<lambda>c. afterAssertions (without_empty c)) cs)) \<and>
   matches primary (Conditions c) =
     Seq (beforeAssertions (without_empty c) @ [primary] @ afterAssertions (without_empty c)) \<and>
   ((\<forall>c\<in>set cs. Some (Str []) \<notin> set (slots c)) \<longrightarrow>
      matches primary (ConditionsArray cs) =
        Seq (concat (map beforeAssertions cs) @ [primary] @ concat (map afterAssertions cs))) \<and>
   (Some (Str []) \<notin> set (slots c) \<longrightarrow>
      matches primary (Conditions c) = Seq (beforeAssertions c @ [primary] @ afterAssertions c))"
proof -
  have array: "matches primary (ConditionsArray cs) =
     Seq (concat (map (\<lambda>c. beforeAssertions (without_empty c)) cs) @ [primary]
          @ concat (map (\<lambda>c. afterAssertions (without_empty c)) cs))"
    by (simp add: matches_def matches_loop)
  have single: "matches primary (Conditions c) =
     Seq (beforeAssertions (without_empty c) @ [primary] @ afterAssertions (without_empty c))"
    by (simp add: matches_def matches_loop)
  have array_plain: "matches primary (ConditionsArray cs) =
        Seq (concat (map beforeAssertions cs) @ [primary] @ concat (map afterAssertions cs))"
    if "\<forall>c\<in>set cs. Some (Str []) \<notin> set (slots c)"
  proof -
    from that have before: "map (\<lambda>c. beforeAssertions (without_empty c)) cs = map beforeAssertions cs"
      by (intro map_cong refl assertions_without_empty) blast
    from that have after: "map (\<lambda>c. afterAssertions (without_empty c)) cs = map afterAssertions cs"
      by (intro map_cong refl assertions_without_empty) blast
    show ?thesis unfolding array before after by (rule refl)
  qed
  have single_plain: "matches primary (Conditions c) =
        Seq (beforeAssertions c @ [primary] @ afterAssertions c)"
    if "Some (Str []) \<notin> set (slots c)"
    using single assertions_without_empty [OF that] by simp
  from array single array_plain single_plain show ?thesis by blast
qed

theorem matches_sequence_witness:
  "Some (Str []) \<notin> set (slots \<lparr>except = Some (Str ''Cat''), ifFollowedBy = None,
                ifNotFollowedBy = Some (Str ''!''), ifPrecededBy = None,
                ifNotPrecededBy = Some (Str ''0''), ifExtendsTo = None,
                ifExtendsBackTo = None, ifNotExtendsBackTo = None\<rparr>) \<and>
   Some (Str []) \<notin> set (slots \<lparr>except = Some (Str ''Dog''), ifFollowedBy = None,
                ifNotFollowedBy = None, ifPrecededBy = None,
                ifNotPrecededBy = None, ifExtendsTo = None,
                ifExtendsBackTo = None, ifNotExtendsBackTo = None\<rparr>) \<and>
   matches (Str ''p'')
     (ConditionsArray
        [\<lparr>except = Some (Str ''Cat''), ifFollowedBy = None,
          ifNotFollowedBy = Some (Str ''!''), ifPrecededBy = None,
          ifNotPrecededBy = Some (Str ''0''), ifExtendsTo = None,
          ifExtendsBackTo = None, ifNotExtendsBackTo = None\<rparr>,
         \<lparr>except = Some (Str ''Dog''), ifFollowedBy = None,
          ifNotFollowedBy = None, ifPrecededBy = None,
          ifNotPrecededBy = None, ifExtendsTo = None,
          ifExtendsBackTo = None, ifNotExtendsBackTo = None\<rparr>]) =
     Seq [NotFollowedBy (Str ''Cat''), NotPrecededBy (Str ''0''), NotFollowedBy (Str ''Dog''),
          Str ''p'', NotFollowedBy (Str ''!'')] \<and>
   Some (Str []) \<notin> set (slots \<lparr>except = None, ifFollowedBy = Some (Str ''f''),
                ifNotFollowedBy = None, ifPrecededBy = Some (Str ''b''),
                ifNotPrecededBy = None, ifExtendsTo = None,
                ifExtendsBackTo = None, ifNotExtendsBackTo = None\<rparr>) \<and>
   matches (Str ''p'')
     (Conditions \<lparr>except = None, ifFollowedBy = Some (Str ''f''),
                ifNotFollowedBy = None, ifPrecededBy = Some (Str ''b''),
                ifNotPrecededBy = None, ifExtendsTo = None,
                ifExtendsBackTo = None, ifNotExtendsBackTo = None\<rparr>) =
     Seq [PrecededBy (Str ''b''), Str ''p'', FollowedBy (Str ''f'')]"
proof -
  let ?c1 = "\<lparr>except = Some (Str ''Cat''), ifFollowedBy = None,
          ifNotFollowedBy = Some (Str ''!''), ifPrecededBy = None,
          ifNotPrecededBy = Some (Str ''0''), ifExtendsTo = None,
          ifExtendsBackTo = None, ifNotExtendsBackTo = None\<rparr>"
  let ?c2 = "\<lparr>except = Some (Str ''Dog''), ifFollowedBy = None,
          ifNotFollowedBy = None, ifPrecededBy = None,
          ifNotPrecededBy = None, ifExtendsTo = None,
          ifExtendsBackTo = None, ifNotExtendsBackTo = None\<rparr>"
  let ?c3 = "\<lparr>except = None, ifFollowedBy = Some (Str ''f''),
          ifNotFollowedBy = None, ifPrecededBy = Some (Str ''b''),
          ifNotPrecededBy = None, ifExtendsTo = None,
          ifExtendsBackTo = None, ifNotExtendsBackTo = None\<rparr>"
  have h1: "\<forall>c\<in>set [?c1, ?c2]. Some (Str []) \<notin> set (slots c)"
    by (simp add: slots_def)
  have h2: "Some (Str []) \<notin> set (slots ?c3)"
    by (simp add: slots_def)
  from matches_sequence [of "Str ''p''" "[?c1, ?c2]" ?c3] h1 h2
  have "matches (Str ''p'') (ConditionsArray [?c1, ?c2]) =
          Seq (concat (map beforeAssertions [?c1, ?c2]) @ [Str ''p'']
               @ concat (map afterAssertions [?c1, ?c2]))"
    and "matches (Str ''p'') (Conditions ?c3) =
          Seq (beforeAssertions ?c3 @ [Str ''p''] @ afterAssertions ?c3)"
    by blast+
  then have "matches (Str ''p'') (ConditionsArray [?c1, ?c2]) =
      Seq [NotFollowedBy (Str ''Cat''), NotPrecededBy (Str ''0''), NotFollowedBy (Str ''Dog''),
           Str ''p'', NotFollowedBy (Str ''!'')]"
    and "matches (Str ''p'') (Conditions ?c3) =
      Seq [PrecededBy (Str ''b''), Str ''p'', FollowedBy (Str ''f'')]"
    by (simp_all add: beforeAssertions_def afterAssertions_def selected_def)
  with h1 h2 show ?thesis by simp
qed

text \<open>
  The claim C8 as it was stated fails at \<open>matches('x', { except: '' })\<close>: the map
  supplies \<open>except\<close>, whose assertion is the negative lookahead of \<open>''\<close>, and the result
  holds the primary pattern alone.
\<close>

theorem matches_empty_slot_dropped:
  "beforeAssertions \<lparr>except = Some (Str []), ifFollowedBy = None, ifNotFollowedBy = None,
       ifPrecededBy = None, ifNotPrecededBy = None, ifExtendsTo = None,
       ifExtendsBackTo = None, ifNotExtendsBackTo = None\<rparr> = [NotFollowedBy (Str [])] \<and>
   matches (Str ''x'')
     (Conditions \<lparr>except = Some (Str []), ifFollowedBy = None, ifNotFollowedBy = None,
       ifPrecededBy = None, ifNotPrecededBy = None, ifExtendsTo = None,
       ifExtendsBackTo = None, ifNotExtendsBackTo = None\<rparr>) = Seq [Str ''x''] \<and>
   matches (Str ''x'')
     (Conditions \<lparr>except = Some (Str []), ifFollowedBy = None, ifNotFollowedBy = None,
       ifPrecededBy = None, ifNotPrecededBy = None, ifExtendsTo = None,
       ifExtendsBackTo = None, ifNotExtendsBackTo = None\<rparr>)
     \<noteq> Seq [NotFollowedBy (Str []), Str ''x'']"
  by (simp add: beforeAssertions_def selected_def matches_def matches_step_def push_if_def)

section \<open>Grouping optimizer\<close>

subsection \<open>Maximal runs\<close>

lemma runs_Nil_iff [simp]: "runs P xs = [] \<longleftrightarrow> xs = []"
  by (cases xs) (simp_all split: list.splits)

lemma concat_runs: "concat (runs P xs) = xs"
proof (induction xs)
  case Nil
  then show ?case by simp
next
  case (Cons x xs)
  then show ?case by (cases "runs P xs") auto
qed

lemma runs_nonempty: "r \<in> set (runs P xs) \<Longrightarrow> r \<noteq> []"
proof (induction xs arbitrary: r)
  case Nil
  then show ?case by simp
next
  case (Cons x xs)
  then show ?case by (cases "runs P xs") (auto split: if_splits)
qed

lemma runs_uniform: "r \<in> set (runs P xs) \<Longrightarrow> y \<in> set r \<Longrightarrow> P y = P (hd r)"
proof (induction xs arbitrary: r y)
  case Nil
  then show ?case by simp
next
  case (Cons x xs)
  show ?case
  proof (cases "runs P xs")
    case Nil
    with Cons.prems show ?thesis by simp
  next
    case (Cons r0 rs)
    then have r0: "r0 \<in> set (runs P xs)" by simp
    show ?thesis
    proof (cases "P x = P (hd r0)")
      case True
      with Cons have "runs P (x # xs) = (x # r0) # rs" by simp
      with Cons.prems(1) consider "r = x # r0" | "r \<in> set rs" by auto
      then show ?thesis
      proof cases
        case 1
        with Cons.prems(2) Cons.IH [OF r0] True show ?thesis by auto
      next
        case 2
        with Cons have "r \<in> set (runs P xs)" by simp
        from Cons.IH [OF this Cons.prems(2)] show ?thesis .
      qed
    next
      case False
      with Cons have "runs P (x # xs) = [x] # r0 # rs" by simp
      with Cons.prems(1) consider "r = [x]" | "r \<in> set (runs P xs)" using Cons by auto
      then show ?thesis
      proof cases
        case 1
        with Cons.prems(2) show ?thesis by simp
      next
        case 2
        from Cons.IH [OF this Cons.prems(2)] show ?thesis .
      qed
    qed
  qed
qed

lemma runs_subset: "r \<in> set (runs P xs) \<Longrightarrow> set r \<subseteq> set xs"
proof -
  assume "r \<in> set (runs P xs)"
  then have "set r \<subseteq> set (concat (runs P xs))" by auto
  then show ?thesis by (simp add: concat_runs)
qed

lemma runs_alternate: "distinct_adj (map (\<lambda>r. P (hd r)) (runs P xs))"
proof (induction xs)
  case Nil
  then show ?case by simp
next
  case (Cons x xs)
  then show ?case by (cases "runs P xs") auto
qed

lemma runs_single:
  assumes "g \<noteq> []" "\<forall>x\<in>set g. P x = b"
  shows "runs P g = [g]"
  using assms
proof (induction g)
  case Nil
  then show ?case by simp
next
  case (Cons x g)
  show ?case
  proof (cases "g = []")
    case True
    then show ?thesis by simp
  next
    case False
    from Cons.prems(2) have all: "\<forall>z\<in>set g. P z = b" and x: "P x = b" by simp_all
    from False all have "P (hd g) = b" by simp
    moreover from Cons.IH [OF False all] have "runs P g = [g]" .
    ultimately show ?thesis using x by simp
  qed
qed

lemma runs_append:
  assumes "g \<noteq> []" "\<forall>x\<in>set g. P x = b"
  shows "runs P (g @ ys) =
    (case runs P ys of
       [] \<Rightarrow> [g]
     | r # rs \<Rightarrow> if b = P (hd r) then (g @ r) # rs else g # r # rs)"
  using assms
proof (induction g)
  case Nil
  then show ?case by simp
next
  case (Cons x g)
  from Cons.prems(2) have all: "\<forall>z\<in>set g. P z = b" and x: "P x = b" by simp_all
  show ?case
  proof (cases "g = []")
    case True
    with x show ?thesis by (cases "runs P ys") auto
  next
    case False
    from False all have hg: "P (hd g) = b" by simp
    from Cons.IH [OF False all] have ih: "runs P (g @ ys) =
      (case runs P ys of [] \<Rightarrow> [g]
       | r # rs \<Rightarrow> if b = P (hd r) then (g @ r) # rs else g # r # rs)" .
    have hdg: "hd (g @ r) = hd g" for r using False by simp
    show ?thesis
    proof (cases "runs P ys")
      case Nil
      with ih x hg show ?thesis by simp
    next
      case (Cons r rs)
      with ih x hg hdg show ?thesis by simp
    qed
  qed
qed

lemma runs_map: "runs P (map f xs) = map (map f) (runs (\<lambda>x. P (f x)) xs)"
proof (induction xs)
  case Nil
  then show ?case by simp
next
  case (Cons x xs)
  show ?case
  proof (cases "runs (\<lambda>x. P (f x)) xs")
    case Nil
    then show ?thesis by simp
  next
    case (Cons r rs)
    then have "r \<in> set (runs (\<lambda>x. P (f x)) xs)" by simp
    then have "r \<noteq> []" by (rule runs_nonempty)
    then have "hd (map f r) = f (hd r)" by (simp add: hd_map)
    with Cons Cons.IH show ?thesis by simp
  qed
qed

subsection \<open>The two loops of \<open>encodePattern_anyOf\<close>\<close>

lemma collect_map:
  assumes "\<forall>x\<in>set xs. f x = Inr (h x)"
  shows "collect (map f xs) = Inr (map h xs)"
  using assms by (induction xs) simp_all

lemma group_member_step:
  assumes "g \<noteq> []"
    and "isSingleCharPattern (fst x) = Inr ax"
    and "isSingleCharPattern (fst (hd g)) = Inr ag"
  shows "group_member (gs @ [g]) x =
    (if ax = ag then Inr (gs @ [g @ [x]]) else Inr (gs @ [g] @ [[x]]))"
  using assms by (simp add: group_member_def)

lemma runs_head:
  assumes "runs P (x # xs) = r # rs"
  shows "hd r = x"
proof -
  from assms have "r \<in> set (runs P (x # xs))" by simp
  then have "r \<noteq> []" by (rule runs_nonempty)
  moreover have "concat (runs P (x # xs)) = x # xs" by (rule concat_runs)
  with assms have "r @ concat rs = x # xs" by simp
  ultimately show ?thesis by (cases r) simp_all
qed

lemma group_loop:
  assumes "\<forall>x\<in>set (g @ xs). isSingleCharPattern (fst x) = Inr (a x)"
    and "g \<noteq> []"
    and "\<forall>x\<in>set g. a x = b"
  shows "for_of group_member (gs @ [g]) xs = Inr (gs @ runs a (g @ xs))"
  using assms
proof (induction xs arbitrary: g gs b)
  case Nil
  from runs_single [OF Nil.prems(2,3)] show ?case by simp
next
  case (Cons x xs)
  from Cons.prems(2) have hdg: "hd g \<in> set g" by simp
  with Cons.prems(3) have ahd: "a (hd g) = b" by blast
  from hdg Cons.prems(1) have "isSingleCharPattern (fst (hd g)) = Inr (a (hd g))" by simp
  with ahd have cg: "isSingleCharPattern (fst (hd g)) = Inr b" by simp
  from Cons.prems(1) have cx: "isSingleCharPattern (fst x) = Inr (a x)" by simp
  note step = group_member_step [OF Cons.prems(2) cx cg, of gs]
  show ?case
  proof (cases "a x = b")
    case True
    have "for_of group_member (gs @ [g @ [x]]) xs = Inr (gs @ runs a ((g @ [x]) @ xs))"
    proof (rule Cons.IH)
      show "\<forall>y\<in>set ((g @ [x]) @ xs). isSingleCharPattern (fst y) = Inr (a y)"
        using Cons.prems(1) by simp
      show "g @ [x] \<noteq> []" by simp
      show "\<forall>y\<in>set (g @ [x]). a y = b"
        using Cons.prems(3) True by simp
    qed
    with step True show ?thesis by simp
  next
    case False
    have "for_of group_member ((gs @ [g]) @ [[x]]) xs = Inr ((gs @ [g]) @ runs a ([x] @ xs))"
    proof (rule Cons.IH)
      show "\<forall>y\<in>set ([x] @ xs). isSingleCharPattern (fst y) = Inr (a y)"
        using Cons.prems(1) by simp
      show "[x] \<noteq> []" by simp
      show "\<forall>y\<in>set [x]. a y = a x" by simp
    qed
    then have loop: "for_of group_member (gs @ [g] @ [[x]]) xs = Inr (gs @ g # runs a (x # xs))"
      by simp
    have "runs a (x # xs) \<noteq> []" by (simp only: runs_Nil_iff) simp
    then obtain r rs where rr: "runs a (x # xs) = r # rs"
      by (meson neq_Nil_conv)
    from runs_head [OF rr] have "hd r = x" .
    with False have "b \<noteq> a (hd r)" by simp
    with runs_append [OF Cons.prems(2,3), of "x # xs"] rr
    have "runs a (g @ x # xs) = g # runs a (x # xs)" by (simp only: list.case if_False)
    with loop step False show ?thesis by simp
  qed
qed

lemma group_loop_initial:
  assumes "\<forall>x\<in>set xs. isSingleCharPattern (fst x) = Inr (a x)" and "xs \<noteq> []"
  shows "for_of group_member [[]] xs = Inr (runs a xs)"
proof -
  obtain x xs' where xs: "xs = x # xs'" using assms(2) by (meson neq_Nil_conv)
  have first: "group_member [[]] x = Inr [[x]]" by (simp add: group_member_def)
  have "for_of group_member ([] @ [[x]]) xs' = Inr ([] @ runs a ([x] @ xs'))"
  proof (rule group_loop)
    show "\<forall>y\<in>set ([x] @ xs'). isSingleCharPattern (fst y) = Inr (a y)"
      using assms(1) xs by simp
    show "[x] \<noteq> []" by simp
    show "\<forall>y\<in>set [x]. a y = a x" by simp
  qed
  then have "for_of group_member [[x]] xs' = Inr (runs a xs)" by (simp only: xs append.simps)
  with first show ?thesis by (simp add: xs)
qed

lemma encode_group_run:
  assumes "g \<noteq> []"
    and "\<forall>x\<in>set g. isSingleCharPattern (fst x) = Inr (a x)"
    and "\<forall>x\<in>set g. a x = b"
    and "\<forall>x\<in>set g. snd x (\<not> a x) = Inr (s x)"
  shows "encode_group acc g = Inr (acc @ run_output (map (\<lambda>x. (a x, s x)) g))"
proof -
  obtain x0 g' where g: "g = x0 # g'" using assms(1) by (meson neq_Nil_conv)
  from assms(3) g have a0: "a x0 = b" by simp
  from assms(2) g a0 have c0: "isSingleCharPattern (fst x0) = Inr b" by simp
  from assms(3,4) have "\<forall>x\<in>set g. snd x (\<not> b) = Inr (s x)" by auto
  then have coll: "collect (map (\<lambda>m. snd m (\<not> b)) g) = Inr (map s g)" by (rule collect_map)
  have frag: "filter (\<lambda>v. v \<noteq> []) (map snd (map (\<lambda>x. (a x, s x)) g))
                = filter (\<lambda>v. v \<noteq> []) (map s g)"
    by (simp add: comp_def)
  have out: "run_output (map (\<lambda>x. (a x, s x)) g) =
    (let fragments = filter (\<lambda>v. v \<noteq> []) (map s g) in
     if b then
       (if fragments = [] then []
        else [''['' @ concat (map (\<lambda>v. if v = ''-'' then [backslash] @ ''-'' else v) fragments)
              @ '']''])
     else fragments)"
    unfolding run_output_def frag by (simp add: g a0)
  have code: "encode_group acc g =
    (if b then
       (let encodedPatternsGroup =
              map (\<lambda>v. if v = ''-'' then [backslash] @ ''-'' else v)
                (filter (\<lambda>v. length v > 0) (map s g))
        in if length encodedPatternsGroup > 0
           then Inr (acc @ [''['' @ concat encodedPatternsGroup @ '']''])
           else Inr acc)
     else Inr (acc @ filter (\<lambda>v. length v > 0) (map s g)))"
  proof (cases b)
    case True
    with coll have "collect (map (\<lambda>m. snd m False) g) = Inr (map s g)" by simp
    with True c0 show ?thesis by (simp add: encode_group_def g)
  next
    case False
    with coll have "collect (map (\<lambda>m. snd m True) g) = Inr (map s g)" by simp
    with False c0 show ?thesis by (simp add: encode_group_def g)
  qed
  show ?thesis unfolding code out by (simp add: Let_def)
qed

lemma encode_loop:
  assumes "\<forall>g\<in>set gs. g \<noteq> [] \<and> (\<forall>x\<in>set g. a x = a (hd g))"
    and "\<forall>g\<in>set gs. \<forall>x\<in>set g. isSingleCharPattern (fst x) = Inr (a x)
            \<and> snd x (\<not> a x) = Inr (s x)"
  shows "for_of encode_group acc gs =
    Inr (acc @ concat (map (\<lambda>g. run_output (map (\<lambda>x. (a x, s x)) g)) gs))"
  using assms
proof (induction gs arbitrary: acc)
  case Nil
  show ?case by simp
next
  case (Cons g gs)
  have "encode_group acc g = Inr (acc @ run_output (map (\<lambda>x. (a x, s x)) g))"
  proof (rule encode_group_run)
    show "g \<noteq> []" using Cons.prems(1) by simp
    show "\<forall>x\<in>set g. isSingleCharPattern (fst x) = Inr (a x)" using Cons.prems(2) by simp
    show "\<forall>x\<in>set g. a x = a (hd g)" using Cons.prems(1) by (simp only: list.set) blast
    show "\<forall>x\<in>set g. snd x (\<not> a x) = Inr (s x)" using Cons.prems(2) by simp
  qed
  moreover have "for_of encode_group (acc @ run_output (map (\<lambda>x. (a x, s x)) g)) gs =
    Inr ((acc @ run_output (map (\<lambda>x. (a x, s x)) g))
         @ concat (map (\<lambda>g. run_output (map (\<lambda>x. (a x, s x)) g)) gs))"
  proof (rule Cons.IH)
    show "\<forall>g\<in>set gs. g \<noteq> [] \<and> (\<forall>x\<in>set g. a x = a (hd g))"
      using Cons.prems(1) by (simp only: list.set) blast
    show "\<forall>g\<in>set gs. \<forall>x\<in>set g. isSingleCharPattern (fst x) = Inr (a x)
            \<and> snd x (\<not> a x) = Inr (s x)"
      using Cons.prems(2) by (simp only: list.set) blast
  qed
  ultimately show ?case by simp
qed

lemma encodePattern_anyOf_runs:
  assumes "\<forall>x\<in>set xs. isSingleCharPattern (fst x) = Inr (a x) \<and> snd x (\<not> a x) = Inr (s x)"
  shows "encodePattern_anyOf xs = Inr (anyOf_by_runs (map (\<lambda>x. (a x, s x)) xs))"
proof (cases "xs = []")
  case True
  then show ?thesis by (simp add: encodePattern_anyOf_def anyOf_by_runs_def disjunction_def)
next
  case False
  from assms have "\<forall>x\<in>set xs. isSingleCharPattern (fst x) = Inr (a x)" by simp
  from group_loop_initial [OF this False]
  have groups: "for_of group_member [[]] xs = Inr (runs a xs)" .
  have enc: "for_of encode_group [] (runs a xs) =
    Inr ([] @ concat (map (\<lambda>g. run_output (map (\<lambda>x. (a x, s x)) g)) (runs a xs)))"
  proof (rule encode_loop)
    show "\<forall>g\<in>set (runs a xs). g \<noteq> [] \<and> (\<forall>x\<in>set g. a x = a (hd g))"
    proof (intro ballI conjI)
      fix g assume "g \<in> set (runs a xs)"
      then show "g \<noteq> []" by (rule runs_nonempty)
    next
      fix g x assume "g \<in> set (runs a xs)" "x \<in> set g"
      then show "a x = a (hd g)" by (rule runs_uniform)
    qed
    show "\<forall>g\<in>set (runs a xs). \<forall>x\<in>set g.
        isSingleCharPattern (fst x) = Inr (a x) \<and> snd x (\<not> a x) = Inr (s x)"
    proof (intro ballI)
      fix g x assume g: "g \<in> set (runs a xs)" and x: "x \<in> set g"
      from runs_subset [OF g] x have "x \<in> set xs" by (rule subsetD)
      with assms show "isSingleCharPattern (fst x) = Inr (a x) \<and> snd x (\<not> a x) = Inr (s x)"
        by (rule bspec)
    qed
  qed
  have "runs fst (map (\<lambda>x. (a x, s x)) xs) = map (map (\<lambda>x. (a x, s x))) (runs a xs)"
    by (simp add: runs_map)
  then have "concat (map run_output (runs fst (map (\<lambda>x. (a x, s x)) xs))) =
    concat (map (\<lambda>g. run_output (map (\<lambda>x. (a x, s x)) g)) (runs a xs))"
    by (simp add: comp_def)
  with groups enc False show ?thesis
    by (simp add: encodePattern_anyOf_def anyOf_by_runs_def disjunction_def)
qed

subsection \<open>An empty string literal among the members\<close>

lemma isSingleCharPattern_error:
  "isSingleCharPattern p = Inl e \<longleftrightarrow> p = Str [] \<and> e = ZeroLengthString"
  by (cases p) (auto simp: isSingleUnicodeCodepoint_def split: list.splits)

lemma group_member_result:
  assumes "last S \<noteq> []"
  shows "group_member S x = Inl ZeroLengthString \<or>
    (\<exists>S'. group_member S x = Inr S' \<and> last S' \<noteq> [] \<and> fst x \<noteq> Str [])"
proof (cases "isSingleCharPattern (fst x)")
  case (Inl e)
  then have "e = ZeroLengthString" by (simp add: isSingleCharPattern_error)
  with Inl assms show ?thesis by (simp add: group_member_def)
next
  case ax: (Inr ax)
  then have nx: "fst x \<noteq> Str []" by (auto simp: isSingleUnicodeCodepoint_def)
  show ?thesis
  proof (cases "isSingleCharPattern (fst (hd (last S)))")
    case (Inl e)
    then have "e = ZeroLengthString" by (simp add: isSingleCharPattern_error)
    with Inl ax assms show ?thesis by (simp add: group_member_def)
  next
    case (Inr ag)
    with ax assms nx show ?thesis by (simp add: group_member_def)
  qed
qed

lemma group_loop_empty_member:
  assumes "last S \<noteq> []" and "\<exists>x\<in>set xs. fst x = Str []"
  shows "for_of group_member S xs = Inl ZeroLengthString"
  using assms
proof (induction xs arbitrary: S)
  case Nil
  then show ?case by simp
next
  case (Cons x xs)
  from group_member_result [OF Cons.prems(1), of x]
  consider "group_member S x = Inl ZeroLengthString"
    | S' where "group_member S x = Inr S'" "last S' \<noteq> []" "fst x \<noteq> Str []"
    by blast
  then show ?case
  proof cases
    case 1
    then show ?thesis by simp
  next
    case 2
    with Cons.prems(2) have "\<exists>y\<in>set xs. fst y = Str []" by simp
    from Cons.IH [OF 2(2) this] 2(1) show ?thesis by simp
  qed
qed

lemma encodePattern_anyOf_empty_member:
  assumes "\<exists>x\<in>set xs. fst x = Str []"
  shows "encodePattern_anyOf xs = Inl ZeroLengthString"
proof -
  from assms obtain x xs' where xs: "xs = x # xs'" by (cases xs) auto
  have first: "group_member [[]] x = Inr [[x]]" by (simp add: group_member_def)
  show ?thesis
  proof (cases "\<exists>y\<in>set xs'. fst y = Str []")
    case True
    have "for_of group_member [[x]] xs' = Inl ZeroLengthString"
      by (rule group_loop_empty_member) (use True in simp_all)
    with first show ?thesis by (simp add: encodePattern_anyOf_def xs)
  next
    case False
    with assms xs have x: "fst x = Str []" by auto
    show ?thesis
    proof (cases xs')
      case Nil
      with x first show ?thesis
        by (simp add: encodePattern_anyOf_def xs encode_group_def isSingleUnicodeCodepoint_def)
    next
      case (Cons y ys)
      with False have "fst y \<noteq> Str []" by simp
      then obtain ay where "isSingleCharPattern (fst y) = Inr ay"
        by (cases "isSingleCharPattern (fst y)") (auto simp: isSingleCharPattern_error)
      with x have "group_member [[x]] y = Inl ZeroLengthString"
        by (simp add: group_member_def isSingleUnicodeCodepoint_def)
      with first Cons show ?thesis by (simp add: encodePattern_anyOf_def xs)
    qed
  qed
qed

lemma anyOf_empty_member:
  assumes "Str [] \<in> set ms"
  shows "encodePattern (AnyOf ms) w = Inl ZeroLengthString"
proof -
  from assms have "\<exists>x\<in>set (map (\<lambda>m. (m, encodePattern m)) ms). fst x = Str []"
    by (simp add: image_iff)
  then show ?thesis by (simp add: encodePattern_anyOf_empty_member)
qed

lemma tagged_members:
  assumes "list_all2 (\<lambda>m t. isSingleCharPattern m = Inr (fst t)
                        \<and> encodePattern m (\<not> fst t) = Inr (snd t)) ms tagged"
  shows "(\<forall>x\<in>set (map (\<lambda>m. (m, encodePattern m)) ms).
            isSingleCharPattern (fst x) = Inr (projr (isSingleCharPattern (fst x)))
            \<and> snd x (\<not> projr (isSingleCharPattern (fst x)))
                = Inr (projr (snd x (\<not> projr (isSingleCharPattern (fst x))))))
         \<and> tagged = map (\<lambda>x. (projr (isSingleCharPattern (fst x)),
                              projr (snd x (\<not> projr (isSingleCharPattern (fst x))))))
                       (map (\<lambda>m. (m, encodePattern m)) ms)"
  using assms by (induction rule: list_all2_induct) auto

lemma isSingleCharPattern_atomic:
  assumes "m \<noteq> Str []"
  shows "isSingleCharPattern m = Inr (atomic m)"
proof (cases m)
  case (Str str)
  with assms obtain c rest where "str = c # rest" by (cases str) simp_all
  with Str show ?thesis by (simp add: isSingleUnicodeCodepoint_def)
qed simp_all

text \<open>
  C5, as amended. When no member is the empty string literal and every member encodes
  without error (an atomic member, that is a single literal code point or a class token,
  in unwrapped form; a composite member in the default form), \<open>encodePattern\<close> of the
  \<open>anyOf\<close> node is the grouping by maximal runs: one character class for each atomic
  run, separate branches for each composite run, in the original order, joined with
  \<open>|\<close> and wrapped once in \<open>(?:...)\<close>, and the empty string when there is no member or
  every member encodes empty. When a member is the empty string literal, its
  classification raises and so does the encoding of the node.
\<close>

theorem anyOf_encoding:
  "(Str [] \<notin> set ms \<and>
    list_all2 (\<lambda>m t. fst t = atomic m \<and> encodePattern m (\<not> atomic m) = Inr (snd t)) ms tagged
      \<longrightarrow> encodePattern (anyOf ms) w = Inr (anyOf_by_runs tagged)) \<and>
   (Str [] \<in> set ms' \<longrightarrow> encodePattern (anyOf ms') w = Inl ZeroLengthString)"
proof (intro conjI impI)
  assume hyp: "Str [] \<notin> set ms \<and>
    list_all2 (\<lambda>m t. fst t = atomic m \<and> encodePattern m (\<not> atomic m) = Inr (snd t)) ms tagged"
  then have spec: "list_all2 (\<lambda>m t. fst t = atomic m
                      \<and> encodePattern m (\<not> atomic m) = Inr (snd t)) ms tagged"
    and nonempty: "Str [] \<notin> set ms" by simp_all
  from spec have rel: "list_all2 (\<lambda>m t. isSingleCharPattern m = Inr (fst t)
                  \<and> encodePattern m (\<not> fst t) = Inr (snd t)) ms tagged"
  proof (rule list.rel_mono_strong)
    fix m t
    assume "m \<in> set ms"
      and mt: "fst t = atomic m \<and> encodePattern m (\<not> atomic m) = Inr (snd t)"
    with nonempty have "m \<noteq> Str []" by auto
    then have "isSingleCharPattern m = Inr (atomic m)" by (rule isSingleCharPattern_atomic)
    with mt show "isSingleCharPattern m = Inr (fst t) \<and> encodePattern m (\<not> fst t) = Inr (snd t)"
      by simp
  qed
  let ?xs = "map (\<lambda>m. (m, encodePattern m)) ms"
  let ?a = "\<lambda>x :: member. projr (isSingleCharPattern (fst x))"
  let ?s = "\<lambda>x :: member. projr (snd x (\<not> ?a x))"
  from tagged_members [OF rel]
  have ok: "\<forall>x\<in>set ?xs. isSingleCharPattern (fst x) = Inr (?a x) \<and> snd x (\<not> ?a x) = Inr (?s x)"
    and tg: "tagged = map (\<lambda>x. (?a x, ?s x)) ?xs"
    by blast+
  from encodePattern_anyOf_runs [of ?xs ?a ?s, OF ok] tg
  show "encodePattern (anyOf ms) w = Inr (anyOf_by_runs tagged)" by (simp add: anyOf_def)
next
  assume "Str [] \<in> set ms'"
  then show "encodePattern (anyOf ms') w = Inl ZeroLengthString"
    unfolding anyOf_def by (rule anyOf_empty_member)
qed

theorem anyOf_encoding_witness:
  "Str [] \<notin> set [Str ''a'', Str ''b'', Str ''cat'', Str ''d''] \<and>
   list_all2 (\<lambda>m t. fst t = atomic m \<and> encodePattern m (\<not> atomic m) = Inr (snd t))
     [Str ''a'', Str ''b'', Str ''cat'', Str ''d'']
     [(True, ''a''), (True, ''b''), (False, ''cat''), (True, ''d'')] \<and>
   encodePattern (anyOf [Str ''a'', Str ''b'', Str ''cat'', Str ''d'']) True
     = Inr ''(?:[ab]|cat|[d])'' \<and>
   Str [] \<in> set [Str ''a'', Str []] \<and>
   encodePattern (anyOf [Str ''a'', Str []]) True = Inl ZeroLengthString"
proof -
  have n: "Str [] \<notin> set [Str ''a'', Str ''b'', Str ''cat'', Str ''d'']" by simp
  have h: "list_all2 (\<lambda>m t. fst t = atomic m \<and> encodePattern m (\<not> atomic m) = Inr (snd t))
     [Str ''a'', Str ''b'', Str ''cat'', Str ''d'']
     [(True, ''a''), (True, ''b''), (False, ''cat''), (True, ''d'')]"
    by (simp add: escapeStringForRegExp_def)
  have v: "anyOf_by_runs [(True, ''a''), (True, ''b''), (False, ''cat''), (True, ''d'')]
             = ''(?:[ab]|cat|[d])''"
    by (simp add: anyOf_by_runs_def disjunction_def run_output_def)
  have e: "Str [] \<in> set [Str ''a'', Str []]" by simp
  from anyOf_encoding [of "[Str ''a'', Str ''b'', Str ''cat'', Str ''d'']"
      "[(True, ''a''), (True, ''b''), (False, ''cat''), (True, ''d'')]" True "[Str ''a'', Str []]"]
    n h v e show ?thesis by simp
qed

text \<open>
  The claim C5 as it was stated fails at \<open>anyOf('')\<close>: the only member encodes to the
  empty string, and the node does not encode to the empty string but raises.
\<close>

theorem anyOf_empty_literal:
  "encodePattern (Str []) True = Inr [] \<and>
   encodePattern (anyOf [Str []]) True = Inl ZeroLengthString"
  by (simp add: anyOf_def escapeStringForRegExp_def encodePattern_anyOf_def group_member_def
      encode_group_def isSingleUnicodeCodepoint_def)

end
